theory Spec2Isabelle
  imports Main "HOL-Library.AList"
begin

section \<open>JavaScript values\<close>

text \<open>
  The utilities of \<^verbatim>\<open>src/utilities.ts\<close> work on untyped JavaScript values. A value is
  either a primitive or an object; an object is an array or a plain object and carries
  its own enumerable properties as an association list (an earlier binding of a key
  shadows a later one, so every list is read as one JavaScript object). Property keys
  are either array indices (\<open>Idx n\<close> stands for the canonical decimal string of \<open>n\<close>) or
  other names. Besides its own properties an object has the properties that it inherits
  from \<^verbatim>\<open>Object.prototype\<close> and, if it is an array, from \<^verbatim>\<open>Array.prototype\<close>. An array
  records its \<^verbatim>\<open>length\<close>. Numbers are integers.

  Objects are handled as values: the two trees given to \<open>deepExtend\<close> are trees that
  share no object, as the specification has them, so that the in-place update of the
  first tree is the tree that the model returns.
\<close>

datatype prim = Undefined | Null | Bool bool | Num int | Str string

datatype key = Idx nat | Name string

datatype kind = Plain | Array nat

datatype obj = Object kind "(key \<times> (prim + obj)) list"

type_synonym val = "prim + obj"

abbreviation Prim :: "prim \<Rightarrow> val" where
  "Prim \<equiv> Inl"

abbreviation Ref :: "obj \<Rightarrow> val" where
  "Ref \<equiv> Inr"

fun props :: "obj \<Rightarrow> (key \<times> val) list" where
  "props (Object k ps) = ps"

text \<open>\<^verbatim>\<open>Array.isArray(x)\<close> for an object \<open>x\<close>.\<close>

fun isArray :: "obj \<Rightarrow> bool" where
  "isArray (Object (Array n) ps) = True"
| "isArray (Object Plain ps) = False"

text \<open>\<^verbatim>\<open>x.length\<close> of an array (a plain object has none; \<open>0\<close> stands for it).\<close>

fun len :: "obj \<Rightarrow> nat" where
  "len (Object (Array n) ps) = n"
| "len (Object Plain ps) = 0"

text \<open>\<^verbatim>\<open>Object.keys(x)\<close>: every bound key once.\<close>

definition keys :: "obj \<Rightarrow> key list" where
  "keys ob = remdups (map fst (props ob))"

definition lookup :: "obj \<Rightarrow> key \<Rightarrow> val option" where
  "lookup ob i = map_of (props ob) i"

text \<open>
  The names of the methods of \<^verbatim>\<open>Object.prototype\<close> and of \<^verbatim>\<open>Array.prototype\<close>
  (ECMAScript 2023). Every one of them is bound to a built-in function, which is an
  object and not an array, and can be shadowed by an assignment.
\<close>

definition objectPrototype :: "string list" where
  "objectPrototype =
     [''constructor'', ''hasOwnProperty'', ''isPrototypeOf'', ''propertyIsEnumerable'',
      ''toLocaleString'', ''toString'', ''valueOf'', ''__defineGetter__'',
      ''__defineSetter__'', ''__lookupGetter__'', ''__lookupSetter__'']"

definition arrayPrototype :: "string list" where
  "arrayPrototype =
     [''at'', ''concat'', ''copyWithin'', ''entries'', ''every'', ''fill'', ''filter'',
      ''find'', ''findIndex'', ''findLast'', ''findLastIndex'', ''flat'', ''flatMap'',
      ''forEach'', ''includes'', ''indexOf'', ''join'', ''keys'', ''lastIndexOf'', ''map'',
      ''pop'', ''push'', ''reduce'', ''reduceRight'', ''reverse'', ''shift'', ''slice'',
      ''some'', ''sort'', ''splice'', ''toReversed'', ''toSorted'', ''toSpliced'',
      ''unshift'', ''values'', ''with'']"

text \<open>
  What the object \<open>x\<close> has under the key \<open>i\<close>: an own property and its value (the
  \<^verbatim>\<open>length\<close> of an array is one, though \<^verbatim>\<open>Object.keys\<close> does not list it), an inherited
  method, the inherited accessor \<^verbatim>\<open>__proto__\<close>, or nothing.
\<close>

datatype slot = Own val | Method | Accessor | Absent

definition slot :: "obj \<Rightarrow> key \<Rightarrow> slot" where
  "slot ob i =
     (case lookup ob i of
        Some v \<Rightarrow> Own v
      | None \<Rightarrow>
          (case i of
             Idx n \<Rightarrow> Absent
           | Name s \<Rightarrow>
               if isArray ob \<and> s = ''length'' then Own (Prim (Num (int (len ob))))
               else if s = ''__proto__'' then Accessor
               else if s \<in> set objectPrototype \<or> (isArray ob \<and> s \<in> set arrayPrototype)
               then Method
               else Absent))"

text \<open>\<^verbatim>\<open>i in x\<close>: own or inherited.\<close>

definition has :: "obj \<Rightarrow> key \<Rightarrow> bool" where
  "has ob i = (slot ob i \<noteq> Absent)"

text \<open>\<^verbatim>\<open>x[i]\<close> for an own enumerable property; without one, \<^verbatim>\<open>undefined\<close>.\<close>

definition get :: "obj \<Rightarrow> key \<Rightarrow> val" where
  "get ob i = (case lookup ob i of None \<Rightarrow> Prim Undefined | Some v \<Rightarrow> v)"

text \<open>Writing an index at or beyond the length of an array extends the array.\<close>

fun grow :: "kind \<Rightarrow> key \<Rightarrow> kind" where
  "grow (Array n) (Idx m) = Array (max n (Suc m))"
| "grow k i = k"

text \<open>
  \<^verbatim>\<open>x[i] = v\<close> where \<open>i\<close> is an own property, an inherited method (which the new own
  property then shadows) or no property of \<open>x\<close>: an existing property keeps its place, a
  new one is added last. The assignment to the \<^verbatim>\<open>length\<close> of an array is outside this
  function: there the model keeps the elements and the length and records the value.
\<close>

fun put :: "obj \<Rightarrow> key \<Rightarrow> val \<Rightarrow> obj" where
  "put (Object k ps) i v = Object (grow k i) (AList.update i v ps)"

text \<open>An array literal \<^verbatim>\<open>[v0, v1, ...]\<close>.\<close>

definition arr :: "val list \<Rightarrow> obj" where
  "arr vs = Object (Array (length vs)) (zip (map Idx [0..<length vs]) vs)"

text \<open>
  The elements of an array in index order, moved up by \<open>off\<close>; holes stay holes and
  named properties are left behind, as \<^verbatim>\<open>Array.prototype.concat\<close> does.
\<close>

definition elements :: "obj \<Rightarrow> nat \<Rightarrow> (key \<times> val) list" where
  "elements a off =
     concat (map (\<lambda>n. case lookup a (Idx n) of
                         None \<Rightarrow> []
                       | Some v \<Rightarrow> [(Idx (off + n), v)])
                 [0..<len a])"

text \<open>
  The default of the parameter \<^verbatim>\<open>arrayMergeFn\<close>, \<^verbatim>\<open>(a, b) => a.concat(b)\<close>. The
  function is only ever applied to two arrays.
\<close>

definition concat_arrays :: "obj \<Rightarrow> obj \<Rightarrow> val" where
  "concat_arrays a b =
     Ref (Object (Array (len a + len b)) (elements a 0 @ elements b (len a)))"


section \<open>deepExtend\<close>

text \<open>
  \<^verbatim>\<open>
  export function deepExtend(obj1: any, obj2: any,
                             arrayMergeFn = ((a: any[], b: any[]) => a.concat(b))) {
    for (const i of Object.keys(obj2)) {
      if (i in obj1 && Array.isArray(obj1[i]) && Array.isArray(obj2[i])) {
        obj1[i] = arrayMergeFn(obj1[i], obj2[i]);
      } else if (i in obj1 && obj1[i] instanceof Object &&
        obj2[i] instanceof Object) {
        deepExtend(obj1[i], obj2[i]);
      } else {
        obj1[i] = obj2[i];
      }
    }
  }
  \<close>
  The optional third parameter is an \<open>option\<close>: \<open>None\<close> is the call that leaves it out,
  as the recursive call does. The loop folds over the keys of \<open>obj2\<close>, threading the
  updated \<open>obj1\<close>. The first two branches need \<open>i in obj1\<close> and an object on both sides
  (an array is an object).
  \<^item> If \<open>obj1\<close> has an own property \<open>i\<close> that is an object, this is the pattern
    \<open>(Own (Ref a), Some (Ref b))\<close>; the recursive call changes \<open>obj1[i]\<close> in place, which
    is the \<open>put\<close> of its result under the key that is already there.
  \<^item> If \<open>obj1\<close> only inherits \<open>i\<close>, a method, then \<open>obj1[i]\<close> is a built-in function, an
    object that is no array: with an object in \<open>obj2\<close> the second branch calls
    \<open>deepExtend\<close> on the built-in function, and \<open>obj1\<close> itself is not written to.
  \<^item> If \<open>i\<close> is the inherited accessor \<^verbatim>\<open>__proto__\<close>, every branch ends in its getter
    or setter, and \<open>obj1\<close> gets no own property.
  \<^item> Everything else is the assignment of the last branch.
  The function returns the target tree. What the calls on built-in functions write is
  not in that tree (\<open>builtinCalls\<close> below lists these calls), and neither is the
  prototype that the setter of \<^verbatim>\<open>__proto__\<close> may set.
\<close>

function deepExtend :: "obj \<Rightarrow> obj \<Rightarrow> (obj \<Rightarrow> obj \<Rightarrow> val) option \<Rightarrow> obj" where
  "deepExtend obj1 obj2 arrayMergeFn =
     fold (\<lambda>i obj1.
        case (slot obj1 i, lookup obj2 i) of
          (Own (Ref a), Some (Ref b)) \<Rightarrow>
            if isArray a \<and> isArray b then
              put obj1 i ((case arrayMergeFn of None \<Rightarrow> concat_arrays | Some f \<Rightarrow> f) a b)
            else put obj1 i (Ref (deepExtend a b None))
        | (Method, Some (Ref b)) \<Rightarrow> obj1
        | (Accessor, _) \<Rightarrow> obj1
        | _ \<Rightarrow> put obj1 i (get obj2 i))
      (keys obj2) obj1"
  by pat_completeness auto
termination
proof (relation "measure (\<lambda>(obj1, obj2, f). size obj2)", goal_cases)
  case 1
  show ?case by simp
next
  case 2
  have sz: "size b < size ob" if "lookup ob i = Some (Ref b)" for ob :: obj and i b
  proof -
    obtain k ps where ob: "ob = Object k ps"
      by (cases ob)
    with that have "(i, Ref b) \<in> set ps"
      by (simp add: lookup_def map_of_SomeD)
    then have "size b < Suc (size_list (size_prod (\<lambda>_. 0) (size_sum (\<lambda>_. 0) size)) ps)"
      by (induction ps) auto
    with ob show ?thesis
      by simp
  qed
  from 2 show ?case
    by (auto simp: sz)
qed

declare deepExtend.simps [simp del]




text \<open>
  The calls \<open>deepExtend(obj1[i], obj2[i])\<close> of the loop in which \<open>obj1[i]\<close> is a built-in
  function that \<open>obj1\<close> inherits: the key and the second argument of each. These calls
  write to the built-in function, which is shared by all objects.
\<close>

definition builtinCalls :: "obj \<Rightarrow> obj \<Rightarrow> (key \<times> obj) list" where
  "builtinCalls obj1 obj2 =
     concat (map (\<lambda>i. case (slot obj1 i, lookup obj2 i) of
                         (Method, Some (Ref b)) \<Rightarrow> [(i, b)]
                       | _ \<Rightarrow> [])
                 (keys obj2))"


text \<open>An array merge function that keeps the second array only, \<^verbatim>\<open>(a, b) => b\<close>.\<close>

definition takeSecond :: "obj \<Rightarrow> obj \<Rightarrow> val" where
  "takeSecond a b = Ref b"


section \<open>defer\<close>

text \<open>
  \<^verbatim>\<open>
  export function defer() {
    let resolve = () => {};
    let reject = () => {};
    const promise = new Promise((_resolve, _reject) => {
      resolve = _resolve;
      reject = _reject;
    });
    promise.catch(function (error) { return error; });
    return {promise, resolve, reject};
  }
  \<close>
  \<open>Promise\<close> is the host's. A promise is its state, the flag that its two resolving
  functions share (once one of them has been called, both do nothing) and the flag that
  a rejection handler has been attached. The executor runs inside the constructor, so
  the controls that \<open>defer\<close> returns are the promise's own resolving functions. The
  values given to \<open>resolve\<close> are primitives (not thenables), which fulfil at once.
\<close>

datatype pstate = Pending | Fulfilled prim | Rejected prim

record promise =
  state :: pstate
  alreadyResolved :: bool
  isHandled :: bool

definition newPromise :: promise where
  "newPromise = \<lparr>state = Pending, alreadyResolved = False, isHandled = False\<rparr>"

text \<open>\<^verbatim>\<open>promise.catch(handler)\<close>, as far as the promise itself is concerned.\<close>

definition catch :: "promise \<Rightarrow> promise" where
  "catch p = p\<lparr>isHandled := True\<rparr>"

definition resolve :: "prim \<Rightarrow> promise \<Rightarrow> promise" where
  "resolve v p =
     (if alreadyResolved p then p else p\<lparr>state := Fulfilled v, alreadyResolved := True\<rparr>)"

definition reject :: "prim \<Rightarrow> promise \<Rightarrow> promise" where
  "reject e p =
     (if alreadyResolved p then p else p\<lparr>state := Rejected e, alreadyResolved := True\<rparr>)"

text \<open>The promise of the object that \<open>defer()\<close> returns.\<close>

definition defer' :: promise where
  "defer' = catch newPromise"

text \<open>A holder of the controls calls them in some order.\<close>

datatype action = Resolve prim | Reject prim

fun control :: "action \<Rightarrow> promise \<Rightarrow> promise" where
  "control (Resolve v) p = resolve v p"
| "control (Reject e) p = reject e p"

definition controls :: "action list \<Rightarrow> promise \<Rightarrow> promise" where
  "controls cs p = fold control cs p"


section \<open>cache\<close>

text \<open>
  \<^verbatim>\<open>args.join('--')\<close>: each argument is turned into a string (\<^verbatim>\<open>undefined\<close> and
  \<^verbatim>\<open>null\<close> into the empty one) and the strings are joined by the separator. The
  arguments are primitives; the source says of itself that objects and nested arrays
  are not told apart.
\<close>

fun string_of_nat :: "nat \<Rightarrow> string" where
  "string_of_nat n =
     (if n < 10 then [''0123456789'' ! n]
      else string_of_nat (n div 10) @ [''0123456789'' ! (n mod 10)])"

fun elementString :: "prim \<Rightarrow> string" where
  "elementString Undefined = ''''"
| "elementString Null = ''''"
| "elementString (Bool b) = (if b then ''true'' else ''false'')"
| "elementString (Num n) = (if n < 0 then ''-'' @ string_of_nat (nat (- n)) else string_of_nat (nat n))"
| "elementString (Str s) = s"

fun join :: "string \<Rightarrow> prim list \<Rightarrow> string" where
  "join sep [] = ''''"
| "join sep [x] = elementString x"
| "join sep (x # y # ys) = elementString x @ sep @ join sep (y # ys)"

text \<open>
  \<^verbatim>\<open>
  export function cache<T>(fn: (...args: any[]) => T) {
    let cached = new Map<string, T>();
    return function (...args: any[]) {
      let argString = args.join('--');
      if (!cached.has(argString)) cached.set(argString, fn(...args));
      return cached.get(argString)!;
    };
  }
  \<close>
  The wrapped function runs in a world \<open>'s\<close> of its own and either throws (\<open>Inl\<close>) or
  returns (\<open>Inr\<close>). Every call of \<open>cache\<close> evaluates \<^verbatim>\<open>new Map()\<close>: the heap holds the
  maps, \<open>cache\<close> takes the next free address, and the wrapper it returns is the closure
  over \<open>fn\<close> and over that address.
\<close>

record 'r heap =
  maps :: "nat \<Rightarrow> (string \<rightharpoonup> 'r)"
  free :: nat

record ('s, 'e, 'r) wrapper =
  wrapped :: "prim list \<Rightarrow> 's \<Rightarrow> ('e + 'r) \<times> 's"
  cached :: nat

definition cache ::
  "(prim list \<Rightarrow> 's \<Rightarrow> ('e + 'r) \<times> 's) \<Rightarrow> 'r heap \<Rightarrow> ('s, 'e, 'r) wrapper \<times> 'r heap" where
  "cache fn h =
     (\<lparr>wrapped = fn, cached = free h\<rparr>,
      h\<lparr>maps := (maps h)(free h := Map.empty), free := Suc (free h)\<rparr>)"

text \<open>A call of the function that \<open>cache\<close> returned.\<close>

definition call ::
  "('s, 'e, 'r) wrapper \<Rightarrow> prim list \<Rightarrow> 'r heap \<times> 's \<Rightarrow> ('e + 'r) \<times> 'r heap \<times> 's" where
  "call w args hs =
     (let h = fst hs; s = snd hs; argString = join ''--'' args in
      if maps h (cached w) argString = None then
        (case wrapped w args s of
           (Inl e, s') \<Rightarrow> (Inl e, h, s')
         | (Inr r, s') \<Rightarrow>
             (Inr r, h\<lparr>maps := (maps h)(cached w := (maps h (cached w))(argString \<mapsto> r))\<rparr>, s'))
      else (Inr (the (maps h (cached w) argString)), h, s))"

text \<open>Calls one after the other, with what each gave back.\<close>

fun calls ::
  "('s, 'e, 'r) wrapper \<Rightarrow> prim list list \<Rightarrow> 'r heap \<times> 's \<Rightarrow> ('e + 'r) list \<times> 'r heap \<times> 's" where
  "calls w [] hs = ([], hs)"
| "calls w (args # rest) hs =
     (let (r, hs') = call w args hs; (rs, hs'') = calls w rest hs' in (r # rs, hs''))"

text \<open>A function that counts its invocations and returns \<open>f\<close> of its arguments.\<close>

definition counting :: "(prim list \<Rightarrow> 'r) \<Rightarrow> prim list \<Rightarrow> nat \<Rightarrow> (prim + 'r) \<times> nat" where
  "counting f args n = (Inr (f args), Suc n)"

text \<open>A function that throws when it is invoked for the first time and returns after.\<close>

definition flaky :: "prim list \<Rightarrow> nat \<Rightarrow> (prim + nat) \<times> nat" where
  "flaky args n = (if n = 0 then Inl (Str ''boom'') else Inr n, Suc n)"

text \<open>A heap on which \<open>cache\<close> has not been called.\<close>

definition emptyHeap :: "'r heap" where
  "emptyHeap = \<lparr>maps = (\<lambda>a. Map.empty), free = 0\<rparr>"

text \<open>
  Two wrappers of one function, made by two calls of \<open>cache\<close>, are called with the same
  arguments, the first and then the second.
\<close>

definition callBoth ::
  "(prim list \<Rightarrow> 's \<Rightarrow> ('e + 'r) \<times> 's) \<Rightarrow> prim list \<Rightarrow> 'r heap \<times> 's
     \<Rightarrow> ('e + 'r) list \<times> 'r heap \<times> 's" where
  "callBoth fn args hs =
     (let (w1, h1) = cache fn (fst hs);
          (w2, h2) = cache fn h1;
          (r1, hs1) = call w1 args (h2, snd hs);
          (r2, hs2) = call w2 args hs1
      in ([r1, r2], hs2))"


section \<open>throttle\<close>

text \<open>
  \<^verbatim>\<open>
  export function throttle(fn: (...args: any[]) => void, t = 0) {
    let delay = false;
    let repeat = false;
    return function (...args: any[]) {
      if (delay) {
        repeat = true;
      } else {
        fn(...args);
        delay = true;
        setTimeout(function () {
          if (repeat) fn(...args);
          delay = false;
          repeat = false;
        }, t);
      }
    };
  }
  \<close>
  The state is the two variables of the closure, the host's clock and the timers that
  \<^verbatim>\<open>setTimeout\<close> has registered and that have not fired (the time each is due at and
  the \<open>args\<close> its callback has closed over), and the world \<open>env\<close> of the wrapped
  function, which either throws (\<open>Some e\<close>) or returns (\<open>None\<close>) and does not call the
  wrapper itself.
\<close>

record ('a, 's) throttler =
  delay :: bool
  repeat :: bool
  timers :: "(nat \<times> 'a) list"
  clock :: nat
  env :: 's

definition throttle :: "'s \<Rightarrow> ('a, 's) throttler" where
  "throttle s = \<lparr>delay = False, repeat = False, timers = [], clock = 0, env = s\<rparr>"

text \<open>A call of the function that \<open>throttle(fn, t)\<close> returned.\<close>

definition throttled ::
  "('a \<Rightarrow> 's \<Rightarrow> 'e option \<times> 's) \<Rightarrow> nat \<Rightarrow> 'a \<Rightarrow> ('a, 's) throttler
     \<Rightarrow> 'e option \<times> ('a, 's) throttler" where
  "throttled fn t args st =
     (if delay st then (None, st\<lparr>repeat := True\<rparr>)
      else
        (case fn args (env st) of
           (Some e, s') \<Rightarrow> (Some e, st\<lparr>env := s'\<rparr>)
         | (None, s') \<Rightarrow>
             (None, st\<lparr>env := s', delay := True,
                       timers := timers st @ [(clock st + t, args)]\<rparr>)))"

text \<open>The callback given to \<^verbatim>\<open>setTimeout\<close>, with the \<open>args\<close> it has closed over.\<close>

definition onTimeout ::
  "('a \<Rightarrow> 's \<Rightarrow> 'e option \<times> 's) \<Rightarrow> 'a \<Rightarrow> ('a, 's) throttler
     \<Rightarrow> 'e option \<times> ('a, 's) throttler" where
  "onTimeout fn args st =
     (if repeat st then
        (case fn args (env st) of
           (Some e, s') \<Rightarrow> (Some e, st\<lparr>env := s'\<rparr>)
         | (None, s') \<Rightarrow> (None, st\<lparr>env := s', delay := False, repeat := False\<rparr>))
      else (None, st\<lparr>delay := False, repeat := False\<rparr>))"

text \<open>
  The host runs a callback only after the running code has returned to the event loop,
  also when the delay is \<open>0\<close>. \<open>elapse fn d\<close> is such a return in which \<open>d\<close> milliseconds
  pass: the timers that are due by then fire in the order of their registration (which,
  the delay being the same for all, is the order of their due times); an exception of a
  callback goes to the host and the next callback runs.
\<close>

fun fire ::
  "('a \<Rightarrow> 's \<Rightarrow> 'e option \<times> 's) \<Rightarrow> (nat \<times> 'a) list \<Rightarrow> ('a, 's) throttler
     \<Rightarrow> ('a, 's) throttler" where
  "fire fn [] st = st"
| "fire fn ((due, args) # ts) st = fire fn ts (snd (onTimeout fn args st))"

definition elapse ::
  "('a \<Rightarrow> 's \<Rightarrow> 'e option \<times> 's) \<Rightarrow> nat \<Rightarrow> ('a, 's) throttler \<Rightarrow> ('a, 's) throttler" where
  "elapse fn d st =
     (let now = clock st + d in
      fire fn (filter (\<lambda>tm. fst tm \<le> now) (timers st))
        (st\<lparr>clock := now, timers := filter (\<lambda>tm. \<not> fst tm \<le> now) (timers st)\<rparr>))"

text \<open>
  What a program does with the wrapper: calls it, or returns to the event loop. Calls
  with no \<open>Elapse\<close> between them are synchronous, back to back.
\<close>

datatype 'a event = Call 'a | Elapse nat

fun run ::
  "('a \<Rightarrow> 's \<Rightarrow> 'e option \<times> 's) \<Rightarrow> nat \<Rightarrow> 'a event list \<Rightarrow> ('a, 's) throttler
     \<Rightarrow> ('a, 's) throttler" where
  "run fn t [] st = st"
| "run fn t (Call args # es) st = run fn t es (snd (throttled fn t args st))"
| "run fn t (Elapse d # es) st = run fn t es (elapse fn d st)"

text \<open>A wrapped function that records the arguments of each of its invocations.\<close>

definition recording :: "'a \<Rightarrow> 'a list \<Rightarrow> prim option \<times> 'a list" where
  "recording args log = (None, log @ [args])"

text \<open>A wrapped function that throws when it is given no argument and records otherwise.\<close>

definition picky :: "prim list \<Rightarrow> prim list list \<Rightarrow> prim option \<times> prim list list" where
  "picky args log = (if args = [] then (Some (Str ''no arguments''), log) else (None, log @ [args]))"


section \<open>Properties of throttle\<close>

lemma run_append: "run fn t (es @ fs) st = run fn t fs (run fn t es st)"
proof (induction es arbitrary: st)
  case Nil
  show ?case by simp
next
  case (Cons e es)
  then show ?case by (cases e) simp_all
qed

text \<open>During the cooldown a call sets \<open>repeat\<close> and nothing else.\<close>

lemma cooldown_calls:
  "delay st \<Longrightarrow>
   run fn t (map Call as) st = (if as = [] then st else st\<lparr>repeat := True\<rparr>)"
proof (induction as arbitrary: st)
  case Nil
  show ?case by simp
next
  case (Cons a as)
  have "throttled fn t a st = (None, st\<lparr>repeat := True\<rparr>)"
    using Cons.prems by (simp add: throttled_def)
  moreover have "delay (st\<lparr>repeat := True\<rparr>)"
    using Cons.prems by simp
  ultimately show ?case
    using Cons.IH[of "st\<lparr>repeat := True\<rparr>"] by simp
qed

text \<open>With a delay of \<open>0\<close>, a call and a return to the event loop leave the wrapper ready.\<close>

lemma ready_call_elapse:
  assumes "\<not> delay st" and "\<not> repeat st" and "timers st = []"
  shows "run recording 0 [Call a, Elapse d] st
         = st\<lparr>clock := clock st + d, env := env st @ [a]\<rparr>"
  using assms
  by (simp add: throttled_def recording_def elapse_def onTimeout_def)

lemma spaced_calls:
  "\<not> delay st \<Longrightarrow> \<not> repeat st \<Longrightarrow> timers st = [] \<Longrightarrow>
   env (run recording 0 (concat (map (\<lambda>(a, d). [Call a, Elapse d]) ads)) st)
     = env st @ map fst ads"
proof (induction ads arbitrary: st)
  case Nil
  show ?case by simp
next
  case (Cons ad ads)
  obtain a d where ad: "ad = (a, d)"
    by (cases ad)
  let ?st = "st\<lparr>clock := clock st + d, env := env st @ [a]\<rparr>"
  have step: "run recording 0 [Call a, Elapse d] st = ?st"
    using Cons.prems by (rule ready_call_elapse)
  have "run recording 0 (concat (map (\<lambda>(a, d). [Call a, Elapse d]) (ad # ads))) st
        = run recording 0 (concat (map (\<lambda>(a, d). [Call a, Elapse d]) ads))
            (run recording 0 [Call a, Elapse d] st)"
    unfolding ad by simp
  also have "env \<dots> = env ?st @ map fst ads"
    unfolding step using Cons.prems by (intro Cons.IH) simp_all
  finally show ?case
    by (simp add: ad)
qed

text \<open>
  C1, as the code has it. With a window of 100 ms, three synchronous calls with the
  arguments \<open>a1\<close>, \<open>a2\<close>, \<open>a3\<close> invoke the wrapped function once, at once, with \<open>a1\<close>;
  nothing more happens before the timer is due (99 ms later still one invocation); when
  the timer fires after 100 ms there is exactly one trailing invocation, two invocations
  in all, and the wrapper is ready again. The trailing invocation carries the arguments
  of the first call, which the timer callback has closed over, not those of the third.
\<close>

theorem throttle_three_calls:
  "env (run recording 100 [Call a1, Call a2, Call a3] (throttle [])) = [a1]
   \<and> env (run recording 100 [Call a1, Call a2, Call a3, Elapse 99] (throttle [])) = [a1]
   \<and> run recording 100 [Call a1, Call a2, Call a3, Elapse 100] (throttle [])
       = \<lparr>delay = False, repeat = False, timers = [], clock = 100, env = [a1, a1]\<rparr>"
  by (simp add: throttled_def throttle_def recording_def elapse_def onTimeout_def)

theorem throttle_three_calls_witness:
  "env (run recording 100 [Call [Num 1], Call [Num 2], Call [Num 3], Elapse 100] (throttle []))
     = [[Num 1], [Num 1]]"
  using throttle_three_calls [of "[Num 1]" "[Num 2]" "[Num 3]"] by simp

text \<open>
  C1 as stated fails: after the calls with 1, 2 and 3 and the expiry of the timer, the
  invocations are not the one with 1 followed by the one with 3.
\<close>

theorem throttle_latest_args_counterexample:
  "env (run recording 100 [Call [Num 1], Call [Num 2], Call [Num 3], Elapse 100] (throttle []))
     \<noteq> [[Num 1], [Num 3]]"
  by (simp add: throttled_def throttle_def recording_def elapse_def onTimeout_def)

text \<open>
  C4, as the code has it. With a window of 0 ms, calls that are each followed by a return
  to the event loop (in which the timer of delay 0 fires) all invoke the wrapped function
  at once, in order. Synchronous calls back to back are coalesced as with any other
  window: the first of them invokes the function, the others do not, and when the timer
  fires there is one trailing invocation if there was more than one call.
\<close>

theorem throttle_zero_window:
  "env (run recording 0 (concat (map (\<lambda>(a, d). [Call a, Elapse d]) ads)) (throttle []))
     = map fst ads
   \<and> env (run recording 0 (map Call (a # as)) (throttle [])) = [a]
   \<and> env (run recording 0 (map Call (a # as) @ [Elapse d]) (throttle []))
        = (if as = [] then [a] else [a, a])"
proof (intro conjI)
  show "env (run recording 0 (concat (map (\<lambda>(a, d). [Call a, Elapse d]) ads)) (throttle []))
        = map fst ads"
    using spaced_calls[of "throttle []" ads] by (simp add: throttle_def)
next
  let ?st = "\<lparr>delay = True, repeat = False, timers = [(0, a)], clock = 0, env = [a]\<rparr>"
  have first: "snd (throttled recording 0 a (throttle [])) = ?st"
    by (simp add: throttled_def recording_def throttle_def)
  have rest: "run recording 0 (map Call as) ?st = (if as = [] then ?st else ?st\<lparr>repeat := True\<rparr>)"
    by (rule cooldown_calls) simp
  show "env (run recording 0 (map Call (a # as)) (throttle [])) = [a]"
    using first rest by simp
  show "env (run recording 0 (map Call (a # as) @ [Elapse d]) (throttle []))
        = (if as = [] then [a] else [a, a])"
    using first rest
    by (simp add: run_append elapse_def onTimeout_def recording_def)
qed

theorem throttle_zero_window_witness:
  "env (run recording 0 [Call [Num 1], Elapse 0, Call [Num 2], Elapse 0] (throttle []))
     = [[Num 1], [Num 2]]
   \<and> env (run recording 0 [Call [Num 1], Call [Num 2], Elapse 0] (throttle []))
     = [[Num 1], [Num 1]]"
  using throttle_zero_window [of "[([Num 1], 0), ([Num 2], 0)]" "[Num 1]" "[[Num 2]]" 0]
  by simp

text \<open>
  C4 as stated fails: of two synchronous calls with a window of 0 ms the second does not
  invoke the wrapped function.
\<close>

theorem throttle_zero_counterexample:
  "env (run recording 0 [Call [Num 1], Call [Num 2]] (throttle [])) \<noteq> [[Num 1], [Num 2]]"
  by (simp add: throttled_def throttle_def recording_def)

text \<open>
  C10. If the wrapped function throws in a call made while the wrapper is ready, the
  call throws the same exception, \<open>delay\<close> stays unset and no timer is registered; the
  next call, whatever its arguments, invokes the wrapped function at once.
\<close>

theorem throttle_throw_stays_ready:
  assumes "\<not> delay st" and "fn args (env st) = (Some e, s')"
  shows "throttled fn t args st = (Some e, st\<lparr>env := s'\<rparr>)
     \<and> delay (snd (throttled fn t args st)) = False
     \<and> timers (snd (throttled fn t args st)) = timers st
     \<and> fst (throttled fn t args' (snd (throttled fn t args st))) = fst (fn args' s')
     \<and> env (snd (throttled fn t args' (snd (throttled fn t args st)))) = snd (fn args' s')"
  using assms by (auto simp: throttled_def split: prod.splits option.splits)

theorem throttle_throw_stays_ready_witness:
  "\<not> delay (throttle []) \<and> picky [] (env (throttle [])) = (Some (Str ''no arguments''), [])
   \<and> throttled picky 100 [] (throttle []) = (Some (Str ''no arguments''), throttle [])
   \<and> timers (snd (throttled picky 100 [] (throttle []))) = []
   \<and> env (snd (throttled picky 100 [Num 1] (snd (throttled picky 100 [] (throttle [])))))
       = [[Num 1]]"
proof -
  have r: "\<not> delay (throttle [] :: (prim list, prim list list) throttler)"
    by (simp add: throttle_def)
  have f: "picky [] (env (throttle [])) = (Some (Str ''no arguments''), [])"
    by (simp add: picky_def throttle_def)
  show ?thesis
    using r f
      throttle_throw_stays_ready [where st = "throttle []" and fn = picky and args = "[]"
        and e = "Str ''no arguments''" and s' = "[]" and t = 100 and args' = "[Num 1]"]
    by (simp add: picky_def throttle_def throttled_def)
qed


section \<open>Properties of cache\<close>

lemma call_miss_throw:
  "maps h (cached w) (join ''--'' args) = None \<Longrightarrow> wrapped w args s = (Inl e, s') \<Longrightarrow>
   call w args (h, s) = (Inl e, h, s')"
  by (simp add: call_def)

lemma call_miss:
  "maps h (cached w) (join ''--'' args) = None \<Longrightarrow>
   fst (call w args (h, s)) = fst (wrapped w args s) \<and>
   snd (snd (call w args (h, s))) = snd (wrapped w args s)"
  by (simp add: call_def split: prod.splits sum.splits)

text \<open>An entry that a call adds holds what the wrapped function returned in that call.\<close>

lemma call_new_entry:
  "maps (fst (snd (call w args (h, s)))) a k = Some r \<Longrightarrow>
   maps h a k = Some r \<or>
   (fst (call w args (h, s)) = Inr r \<and> k = join ''--'' args \<and> a = cached w)"
  by (auto simp: call_def Let_def split: prod.splits sum.splits if_splits)

text \<open>A call writes to the map of its own wrapper only.\<close>

lemma call_other:
  "a \<noteq> cached w \<Longrightarrow> maps (fst (snd (call w args hs))) a = maps (fst hs) a"
  by (auto simp: call_def Let_def split: prod.splits sum.splits)

lemma calls_other:
  "a \<noteq> cached w \<Longrightarrow> maps (fst (snd (calls w argss hs))) a = maps (fst hs) a"
proof (induction argss arbitrary: hs)
  case Nil
  show ?case by simp
next
  case (Cons args argss)
  show ?case
    using Cons.IH[OF Cons.prems, of "snd (call w args hs)"]
      call_other[OF Cons.prems, of args hs]
    by (simp add: split_beta Let_def)
qed

text \<open>
  C5, as the code has it. The map \<open>cached\<close> is made by \<open>cache\<close> itself, once for each
  wrapper, and is owned by the closure that \<open>cache\<close> returns. Two wrappers made by two
  calls of \<open>cache\<close> have different maps, and whatever is called through one of them, the
  map of the other stays empty: no result cached through one is observable through the
  other.
\<close>

theorem cache_owned_by_closure:
  "(let w1 = fst (cache fn1 h); h1 = snd (cache fn1 h);
        w2 = fst (cache fn2 h1); h2 = snd (cache fn2 h1) in
      cached w1 \<noteq> cached w2
      \<and> maps (fst (snd (calls w1 argss (h2, s1)))) (cached w2) = Map.empty
      \<and> maps (fst (snd (calls w2 argss (h2, s2)))) (cached w1) = Map.empty)"
proof -
  define w1 where "w1 = fst (cache fn1 h)"
  define h1 where "h1 = snd (cache fn1 h)"
  define w2 where "w2 = fst (cache fn2 h1)"
  define h2 where "h2 = snd (cache fn2 h1)"
  have ne: "cached w1 \<noteq> cached w2"
    by (simp add: w1_def w2_def h1_def cache_def)
  have e1: "maps h2 (cached w1) = Map.empty" and e2: "maps h2 (cached w2) = Map.empty"
    by (simp_all add: w1_def w2_def h1_def h2_def cache_def)
  have "maps (fst (snd (calls w1 argss (h2, s1)))) (cached w2) = Map.empty"
    using calls_other[of "cached w2" w1 argss "(h2, s1)"] ne e2 by simp
  moreover have "maps (fst (snd (calls w2 argss (h2, s2)))) (cached w1) = Map.empty"
    using calls_other[of "cached w1" w2 argss "(h2, s2)"] ne e1 by simp
  ultimately show ?thesis
    using ne unfolding Let_def w1_def h1_def w2_def h2_def by blast
qed

theorem cache_owned_by_closure_witness:
  "maps (fst (snd (calls (fst (cache (counting length) emptyHeap)) [[Num 1, Num 2]]
                     (snd (cache (counting length) (snd (cache (counting length) emptyHeap))),
                      0 :: nat))))
        (cached (fst (cache (counting length) (snd (cache (counting length) emptyHeap)))))
     = Map.empty"
  using cache_owned_by_closure
    [of "counting length" emptyHeap "counting length" "[[Num 1, Num 2]]" 0 0]
  by (simp add: Let_def)

text \<open>
  C5 as stated fails: two wrappers of one counting function are made and called with
  the arguments (1, 2), one after the other. Were the result that the first call cached
  observable through the second wrapper, the function would have been invoked once; it
  has been invoked twice.
\<close>

theorem cache_shared_counterexample:
  "snd (snd (callBoth (counting length) [Num 1, Num 2] (emptyHeap, 0))) \<noteq> 1
   \<and> snd (snd (callBoth (counting length) [Num 1, Num 2] (emptyHeap, 0))) = 2"
  by (simp add: callBoth_def cache_def call_def counting_def emptyHeap_def Let_def)

text \<open>
  C7. A wrapper of a function that counts its invocations is called with the arguments
  (1, 2), (1, 2) and (1, 3): the function is invoked exactly twice, the three calls
  return what the function returns for their arguments, and the map holds the two
  results under the keys \<open>1--2\<close> and \<open>1--3\<close>, the arguments joined by \<open>--\<close>. In general a
  call whose key is in the map returns the stored result and does not invoke the
  function (its world \<open>s\<close> is unchanged), and a call whose key is not in the map and
  whose function returns invokes it once and stores the result under the key.
\<close>

theorem cache_memo_calls:
  "(let wh = cache (counting f) h; w = fst wh; h1 = snd wh in
     calls w [[Num 1, Num 2], [Num 1, Num 2], [Num 1, Num 3]] (h1, n)
       = ([Inr (f [Num 1, Num 2]), Inr (f [Num 1, Num 2]), Inr (f [Num 1, Num 3])],
          h1\<lparr>maps := (maps h1)(cached w :=
                 [''1--2'' \<mapsto> f [Num 1, Num 2], ''1--3'' \<mapsto> f [Num 1, Num 3]])\<rparr>,
          n + 2))
   \<and> (maps h' (cached w') (join ''--'' args) = Some r \<longrightarrow>
        call w' args (h', s) = (Inr r, h', s))
   \<and> (maps h' (cached w') (join ''--'' args) = None \<and> wrapped w' args s = (Inr r, s') \<longrightarrow>
        call w' args (h', s)
          = (Inr r,
             h'\<lparr>maps := (maps h')(cached w' := (maps h' (cached w'))(join ''--'' args \<mapsto> r))\<rparr>,
             s'))"
  by (simp add: cache_def call_def counting_def Let_def)

theorem cache_memo_calls_witness:
  "snd (snd (calls (fst (cache (counting length) emptyHeap))
                   [[Num 1, Num 2], [Num 1, Num 2], [Num 1, Num 3]]
                   (snd (cache (counting length) emptyHeap), 0))) = 2
   \<and> call \<lparr>wrapped = counting length, cached = 0\<rparr> [Num 1, Num 2]
        (\<lparr>maps = (\<lambda>a. [''1--2'' \<mapsto> 7]), free = 1\<rparr>, 0)
      = (Inr 7, \<lparr>maps = (\<lambda>a. [''1--2'' \<mapsto> 7]), free = 1\<rparr>, 0)"
  using cache_memo_calls
    [of "length" emptyHeap 0 "\<lparr>maps = (\<lambda>a. [''1--2'' \<mapsto> 7]), free = 1\<rparr>"
        "\<lparr>wrapped = counting length, cached = 0\<rparr>" "[Num 1, Num 2]" 7 0]
  by (simp add: Let_def)

text \<open>
  C8. If the key of a call is not in the map and the wrapped function throws, the call
  throws the same exception and the heap, and so the map, is unchanged; a later call
  with the same arguments finds no entry and invokes the function again, with the
  outcome of that invocation. Whenever a call leaves the map with an entry that was not
  there before, the wrapped function has returned that value in this call, under the
  key of the call: only what the function returns is ever stored.
\<close>

theorem cache_throw_not_cached:
  assumes "maps h (cached w) (join ''--'' args) = None" and "wrapped w args s = (Inl e, s1)"
  shows "call w args (h, s) = (Inl e, h, s1)
     \<and> fst (call w args (h, s1)) = fst (wrapped w args s1)
     \<and> snd (snd (call w args (h, s1))) = snd (wrapped w args s1)
     \<and> (\<forall>w' args' h' s' a k r.
          maps (fst (snd (call w' args' (h', s')))) a k = Some r \<longrightarrow>
          maps h' a k = Some r \<or>
          (fst (call (w' :: ('s, 'e, 'r) wrapper) args' (h', s')) = Inr r
           \<and> k = join ''--'' args' \<and> a = cached w'))"
  using assms call_miss_throw[OF assms] call_miss[OF assms(1), of s1] call_new_entry
  by blast

theorem cache_throw_not_cached_witness:
  "maps (emptyHeap :: nat heap) 0 (join ''--'' [Num 1]) = None
   \<and> flaky [Num 1] 0 = (Inl (Str ''boom''), 1)
   \<and> call \<lparr>wrapped = flaky, cached = 0\<rparr> [Num 1] (emptyHeap, 0)
       = (Inl (Str ''boom''), emptyHeap, 1)
   \<and> fst (call \<lparr>wrapped = flaky, cached = 0\<rparr> [Num 1] (emptyHeap, 1)) = Inr 1
   \<and> maps (fst (snd (call \<lparr>wrapped = flaky, cached = 0\<rparr> [Num 1] (emptyHeap, 1)))) 0 ''1''
       = Some 1
   \<and> maps (emptyHeap :: nat heap) 0 ''1'' \<noteq> Some 1"
proof -
  have m: "maps (emptyHeap :: nat heap) (cached \<lparr>wrapped = flaky, cached = 0\<rparr>)
             (join ''--'' [Num 1]) = None"
    by (simp add: emptyHeap_def)
  have t: "wrapped \<lparr>wrapped = flaky, cached = 0\<rparr> [Num 1] 0 = (Inl (Str ''boom''), 1)"
    by (simp add: flaky_def)
  have n: "maps (fst (snd (call \<lparr>wrapped = flaky, cached = 0\<rparr> [Num 1] (emptyHeap, 1)))) 0 ''1''
           = Some 1"
    by (simp add: call_def flaky_def emptyHeap_def)
  have o: "maps (emptyHeap :: nat heap) 0 ''1'' \<noteq> Some 1"
    by (simp add: emptyHeap_def)
  note c = cache_throw_not_cached [OF m t]
  note d = c [THEN conjunct2, THEN conjunct2, THEN conjunct2, rule_format, OF n]
  from c [THEN conjunct1] d m t n o show ?thesis
    by (simp add: flaky_def)
qed


section \<open>Properties of deepExtend\<close>
















text \<open>
  C6 does not hold of the code: the loop asks \<^verbatim>\<open>i in obj1\<close>, which is also true of a
  property that \<open>obj1\<close> inherits. The empty object has \<^verbatim>\<open>constructor\<close> by inheritance, so
  for the source \<^verbatim>\<open>{constructor: {a: 1}}\<close> the second branch is taken: the code calls
  \<open>deepExtend\<close> on the built-in function that \<^verbatim>\<open>constructor\<close> is bound to, with \<^verbatim>\<open>{a: 1}\<close>,
  and does not write to the target, which stays empty. The key \<^verbatim>\<open>constructor\<close> of the
  source is no key of the target after the call.
\<close>

theorem deepExtend_inherited_key:
  "has (Object Plain []) (Name ''constructor'')
   \<and> keys (Object Plain [(Name ''constructor'', Ref (Object Plain [(Name ''a'', Prim (Num 1))]))])
       = [Name ''constructor'']
   \<and> deepExtend (Object Plain [])
       (Object Plain [(Name ''constructor'', Ref (Object Plain [(Name ''a'', Prim (Num 1))]))])
       None
     = Object Plain []
   \<and> keys (deepExtend (Object Plain [])
       (Object Plain [(Name ''constructor'', Ref (Object Plain [(Name ''a'', Prim (Num 1))]))])
       None)
     = []
   \<and> builtinCalls (Object Plain [])
       (Object Plain [(Name ''constructor'', Ref (Object Plain [(Name ''a'', Prim (Num 1))]))])
     = [(Name ''constructor'', Object Plain [(Name ''a'', Prim (Num 1))])]"
  by (simp add: deepExtend.simps has_def slot_def keys_def lookup_def builtinCalls_def
      objectPrototype_def)




text \<open>
  C3 does not hold of the code: the recursive call leaves the array merge function out,
  so that below the top level arrays are concatenated whatever function was given. With
  the function that keeps the second array, \<^verbatim>\<open>{x: [1]}\<close> extended by \<^verbatim>\<open>{x: [2]}\<close> is
  \<^verbatim>\<open>{x: [2]}\<close>, but \<^verbatim>\<open>{a: {x: [1]}}\<close> extended by \<^verbatim>\<open>{a: {x: [2]}}\<close> is \<^verbatim>\<open>{a: {x: [1, 2]}}\<close>.
\<close>

theorem deepExtend_nested_merge_default:
  "deepExtend (Object Plain [(Name ''x'', Ref (arr [Prim (Num 1)]))])
              (Object Plain [(Name ''x'', Ref (arr [Prim (Num 2)]))]) (Some takeSecond)
     = Object Plain [(Name ''x'', Ref (arr [Prim (Num 2)]))]
   \<and> deepExtend
       (Object Plain [(Name ''a'', Ref (Object Plain [(Name ''x'', Ref (arr [Prim (Num 1)]))]))])
       (Object Plain [(Name ''a'', Ref (Object Plain [(Name ''x'', Ref (arr [Prim (Num 2)]))]))])
       (Some takeSecond)
     = Object Plain [(Name ''a'', Ref (Object Plain
         [(Name ''x'', Ref (arr [Prim (Num 1), Prim (Num 2)]))]))]"
  by (simp add: deepExtend.simps keys_def lookup_def get_def arr_def takeSecond_def
      concat_arrays_def elements_def upt_rec slot_def)


section \<open>Properties of defer\<close>

lemma control_resolved: "alreadyResolved p \<Longrightarrow> control c p = p"
  by (cases c) (simp_all add: resolve_def reject_def)

lemma controls_resolved: "alreadyResolved p \<Longrightarrow> controls cs p = p"
  unfolding controls_def by (induction cs) (simp_all add: control_resolved)

lemma control_defer: "alreadyResolved (control c defer') \<and> state (control c defer') \<noteq> Pending"
  by (cases c) (simp_all add: resolve_def reject_def defer'_def catch_def newPromise_def)

text \<open>
  C9. On the promise that \<open>defer()\<close> returns, \<open>resolve(5)\<close> followed by \<open>resolve(6)\<close> and by
  any further calls of \<open>resolve\<close> and \<open>reject\<close> leaves the promise fulfilled with 5, as it
  was after the first call. In general the first call of a control takes the promise
  out of the pending state, and every call after the first changes nothing.
\<close>

theorem defer_resolve_once:
  "state (controls (Resolve (Num 5) # Resolve (Num 6) # cs) defer') = Fulfilled (Num 5)
   \<and> controls (Resolve (Num 5) # Resolve (Num 6) # cs) defer' = resolve (Num 5) defer'
   \<and> state defer' = Pending
   \<and> state (control c defer') \<noteq> Pending
   \<and> controls (c # cs) defer' = control c defer'"
proof -
  have "controls (c' # cs') defer' = control c' defer'" for c' cs'
    using controls_resolved[of "control c' defer'" cs'] control_defer[of c']
    by (simp add: controls_def)
  moreover have "state (resolve (Num 5) defer') = Fulfilled (Num 5)"
    by (simp add: resolve_def defer'_def catch_def newPromise_def)
  moreover have "state defer' = Pending"
    by (simp add: defer'_def catch_def newPromise_def)
  ultimately show ?thesis
    using control_defer[of c] by simp
qed

theorem defer_resolve_once_witness:
  "state (controls [Resolve (Num 5), Resolve (Num 6), Reject (Str ''late'')] defer')
     = Fulfilled (Num 5)"
  using defer_resolve_once [of "[Reject (Str ''late'')]" "Resolve (Num 5)", THEN conjunct1]
  by simp

end
